theory Spec2Isabelle
  imports Complex_Main
begin

section \<open>Data model (package invoice, type declarations)\<close>

text \<open>
  The Go structs \<^verbatim>\<open>Counterparty\<close> and \<^verbatim>\<open>Invoice\<close>. Every field of a counterparty is a
  Go string; the empty string is the zero value. The two amounts of an invoice are
  \<^verbatim>\<open>float64\<close> in the source; they are only carried around by the code modelled here
  (never computed with), so they are kept as real numbers.
\<close>

record Counterparty =
  ID :: string
  Name :: string
  VAT :: string
  Country :: string
  Address :: string
  SWIFT :: string
  IBAN :: string
  Phone :: string
  Fax :: string
  Email :: string
  Website :: string

record Invoice =
  Type :: int
  Number :: string
  Date :: string
  TotalAmount :: real
  TaxAmount :: real
  Purpose :: string
  Counterparty :: Counterparty

text \<open>
  A rendered page is a byte string (nothing here looks inside one); its ordinal is its
  position in the list of pages. Page ordinals are Go \<^verbatim>\<open>int\<close>s; the only arithmetic on
  them is the count of a loop over the pages, which cannot overflow, so they are
  integers here.
\<close>

type_synonym bytes = "nat list"

section \<open>Errors and external replies\<close>

text \<open>
  One constructor for every \<^verbatim>\<open>fmt.Errorf\<close> site of the package. The string carried by a
  constructor is the text that the source formats into the message (a wrapped error, a
  file extension, an identifier; for an unmarshalling error the error and the content of
  the response).
\<close>

datatype error =
    ConvertPDFFailed string
  | ReadImageFailed string
  | UnsupportedFileType string
  | NoImagesFound
  | GroupingRequestFailed string
  | GroupingNoChoices
  | GroupingUnmarshalFailed string string
  | AnalysisRequestFailed string
  | AnalysisNoChoices
  | AnalysisUnmarshalFailed string string
  | MatchingRequestFailed string
  | MatchingNoChoices
  | MatchingUnmarshalFailed string string
  | MatchedIDNotInList string

text \<open>\<^verbatim>\<open>err.Error()\<close>: the fixed prefix of each message followed by the formatted detail.\<close>

fun Error :: "error \<Rightarrow> string" where
  "Error (ConvertPDFFailed d) = ''failed to convert PDF to images: '' @ d"
| "Error (ReadImageFailed d) = ''failed to read image file: '' @ d"
| "Error (UnsupportedFileType d) = ''unsupported file type: '' @ d"
| "Error NoImagesFound = ''no images found to process''"
| "Error (GroupingRequestFailed d) = ''grouping request to OpenAI failed: '' @ d"
| "Error GroupingNoChoices = ''OpenAI returned no choices for grouping''"
| "Error (GroupingUnmarshalFailed d c) =
     ''failed to unmarshal grouping response: '' @ d @ ''. Response: '' @ c"
| "Error (AnalysisRequestFailed d) = ''detailed analysis request to OpenAI failed: '' @ d"
| "Error AnalysisNoChoices = ''OpenAI returned no choices for detailed analysis''"
| "Error (AnalysisUnmarshalFailed d c) =
     ''failed to unmarshal detailed analysis response: '' @ d @ ''. Response: '' @ c"
| "Error (MatchingRequestFailed d) = ''matching request to OpenAI failed: '' @ d"
| "Error MatchingNoChoices = ''OpenAI returned no choices for matching''"
| "Error (MatchingUnmarshalFailed d c) =
     ''failed to unmarshal matching response: '' @ d @ ''. Response: '' @ c"
| "Error (MatchedIDNotInList d) =
     ''AI found a match with ID '' @ [CHR 0x27] @ d @ [CHR 0x27]
       @ '' but this ID does not exist in the provided list''"

text \<open>
  What one \<^verbatim>\<open>CreateChatCompletion\<close> call followed by \<^verbatim>\<open>json.Unmarshal\<close> can give: the
  request fails, the response has no choice, the content of the first choice does not
  unmarshal into the expected Go type (the error and the content are kept), or it
  unmarshals into a value of that type.
\<close>

datatype 'a api_reply =
    RequestFailed string
  | NoChoices
  | BadJSON string string
  | Parsed 'a

text \<open>
  A function of the source either returns (a value or an error value), or the Go runtime
  panics (index out of range, nil dereference), which no caller in this repository
  recovers from.
\<close>

datatype 'a outcome = Panic | Returned 'a

section \<open>Page selection\<close>

text \<open>
  The two \<^verbatim>\<open>for ... range\<close> loops of \<^verbatim>\<open>selectPagesForAnalysis\<close>: the state is the
  map \<^verbatim>\<open>selected\<close> (a missing key reads as false) and the slice \<^verbatim>\<open>result\<close>.
\<close>

fun addUnselected :: "int list \<Rightarrow> (int \<Rightarrow> bool) \<times> int list \<Rightarrow> (int \<Rightarrow> bool) \<times> int list" where
  "addUnselected [] st = st"
| "addUnselected (idx # rest) (selected, result) =
     (if \<not> selected idx
      then addUnselected rest (selected(idx := True), result @ [idx])
      else addUnselected rest (selected, result))"

text \<open>
  \<^verbatim>\<open>selectPagesForAnalysis\<close> as a function of the contents of its argument.
  \<^verbatim>\<open>sort.Ints\<close> puts a slice of ints in ascending order, which is \<^term>\<open>sort\<close>.
\<close>

definition selectPagesForAnalysis :: "int list \<Rightarrow> int list" where
  "selectPagesForAnalysis pageIndices =
     (if length pageIndices \<le> 4 then pageIndices
      else
        let sorted = sort pageIndices;
            st1 = addUnselected (take 2 sorted) (\<lambda>_. False, []);
            st2 = addUnselected (drop (length sorted - 2) sorted) st1
        in sort (snd st2))"

section \<open>Merging and matching counterparties\<close>

text \<open>
  \<^verbatim>\<open>mergeCounterparties\<close>: \<^verbatim>\<open>merged\<close> starts as a copy of \<^verbatim>\<open>existing\<close>; seven
  \<^verbatim>\<open>if\<close> statements follow, one for each field, in the order of the source.
\<close>

definition mergeCounterparties :: "Counterparty \<Rightarrow> Counterparty \<Rightarrow> Counterparty" where
  "mergeCounterparties existing newData =
     (let merged = existing;
          merged = (if VAT merged = [] \<and> VAT newData \<noteq> []
                    then merged\<lparr>VAT := VAT newData\<rparr> else merged);
          merged = (if SWIFT merged = [] \<and> SWIFT newData \<noteq> []
                    then merged\<lparr>SWIFT := SWIFT newData\<rparr> else merged);
          merged = (if IBAN merged = [] \<and> IBAN newData \<noteq> []
                    then merged\<lparr>IBAN := IBAN newData\<rparr> else merged);
          merged = (if Phone merged = [] \<and> Phone newData \<noteq> []
                    then merged\<lparr>Phone := Phone newData\<rparr> else merged);
          merged = (if Fax merged = [] \<and> Fax newData \<noteq> []
                    then merged\<lparr>Fax := Fax newData\<rparr> else merged);
          merged = (if Email merged = [] \<and> Email newData \<noteq> []
                    then merged\<lparr>Email := Email newData\<rparr> else merged);
          merged = (if Website merged = [] \<and> Website newData \<noteq> []
                    then merged\<lparr>Website := Website newData\<rparr> else merged)
      in merged)"

text \<open>The local type \<^verbatim>\<open>MatchResponse\<close> of \<^verbatim>\<open>FindCounterparty\<close>.\<close>

record MatchResponse =
  MatchFound :: bool
  MatchedID :: string

text \<open>
  The loop of step 5 of \<^verbatim>\<open>FindCounterparty\<close>: the first entry whose \<^verbatim>\<open>ID\<close> equals the
  matched id is merged and returned; when the loop ends without a return, the error of
  the line after it is returned.
\<close>

fun mergeMatched :: "Counterparty list \<Rightarrow> string \<Rightarrow> Counterparty \<Rightarrow> error + Counterparty option" where
  "mergeMatched [] matchedID newCounterparty = Inl (MatchedIDNotInList matchedID)"
| "mergeMatched (existing # rest) matchedID newCounterparty =
     (if ID existing = matchedID
      then Inr (Some (mergeCounterparties existing newCounterparty))
      else mergeMatched rest matchedID newCounterparty)"

text \<open>
  \<^verbatim>\<open>FindCounterparty\<close>. The result \<^verbatim>\<open>(nil, nil)\<close> is \<^term>\<open>Inr None\<close>, a matched and
  merged counterparty is \<^term>\<open>Inr (Some c)\<close>, an error is \<^term>\<open>Inl e\<close>. The argument
  \<open>reply\<close> is what the matching request gives when it is issued; with an empty list
  the function returns before issuing it. \<^verbatim>\<open>json.Marshal\<close> of structs that hold only
  strings does not fail, so the two marshalling errors have no branch.
\<close>

definition FindCounterparty ::
  "MatchResponse api_reply \<Rightarrow> Counterparty list \<Rightarrow> Counterparty \<Rightarrow> error + Counterparty option" where
  "FindCounterparty reply existingCounterparties newCounterparty =
     (if length existingCounterparties = 0 then Inr None
      else case reply of
          RequestFailed d \<Rightarrow> Inl (MatchingRequestFailed d)
        | NoChoices \<Rightarrow> Inl MatchingNoChoices
        | BadJSON d c \<Rightarrow> Inl (MatchingUnmarshalFailed d c)
        | Parsed match \<Rightarrow>
            if MatchFound match
            then mergeMatched existingCounterparties (MatchedID match) newCounterparty
            else Inr None)"

section \<open>Processing one file\<close>

text \<open>
  Step 1 of \<^verbatim>\<open>ProcessFile\<close>. \<open>ext\<close> is the lower-cased extension of the path,
  \<open>pdf\<close> the result of \<^verbatim>\<open>convertPDFToImages\<close> (an error text or the page images) and
  \<open>file\<close> the result of \<^verbatim>\<open>os.ReadFile\<close>.
\<close>

definition loadImages :: "string \<Rightarrow> string + bytes list \<Rightarrow> string + bytes \<Rightarrow> error + bytes list" where
  "loadImages ext pdf file =
     (if ext = ''.pdf'' then
        (case pdf of Inl d \<Rightarrow> Inl (ConvertPDFFailed d) | Inr images \<Rightarrow> Inr images)
      else if ext = ''.png'' \<or> ext = ''.jpg'' \<or> ext = ''.jpeg'' then
        (case file of Inl d \<Rightarrow> Inl (ReadImageFailed d) | Inr content \<Rightarrow> Inr [content])
      else Inl (UnsupportedFileType ext))"

text \<open>
  A page grouping is the Go map \<^verbatim>\<open>map[string][]int\<close>, given as the list of its entries in
  the order in which the \<^verbatim>\<open>range\<close> loop of step 3 visits them (Go fixes no order).
\<close>

type_synonym page_groups = "(string \<times> int list) list"

definition groupPagesByInvoice :: "page_groups api_reply \<Rightarrow> error + page_groups" where
  "groupPagesByInvoice reply =
     (case reply of
        RequestFailed d \<Rightarrow> Inl (GroupingRequestFailed d)
      | NoChoices \<Rightarrow> Inl GroupingNoChoices
      | BadJSON d c \<Rightarrow> Inl (GroupingUnmarshalFailed d c)
      | Parsed groups \<Rightarrow> Inr groups)"

definition analyzeInvoicePages :: "Invoice api_reply \<Rightarrow> error + Invoice" where
  "analyzeInvoicePages reply =
     (case reply of
        RequestFailed d \<Rightarrow> Inl (AnalysisRequestFailed d)
      | NoChoices \<Rightarrow> Inl AnalysisNoChoices
      | BadJSON d c \<Rightarrow> Inl (AnalysisUnmarshalFailed d c)
      | Parsed invoice \<Rightarrow> Inr invoice)"

text \<open>
  The loop \<^verbatim>\<open>for i := range imageContents\<close> of the fallback: it appends the index of
  every page to the entry \<^verbatim>\<open>"single_invoice"\<close>.
\<close>

fun appendIndices :: "'a list \<Rightarrow> int \<Rightarrow> int list \<Rightarrow> int list" where
  "appendIndices [] i entry = entry"
| "appendIndices (content # rest) i entry = appendIndices rest (i + 1) (entry @ [i])"

definition pageGroupsOf :: "page_groups api_reply \<Rightarrow> bytes list \<Rightarrow> page_groups" where
  "pageGroupsOf reply imageContents =
     (case groupPagesByInvoice reply of
        Inl err \<Rightarrow> [(''single_invoice'', appendIndices imageContents 0 [])]
      | Inr pageGroups \<Rightarrow> pageGroups)"

text \<open>
  The inner loop of step 3, \<^verbatim>\<open>imagesToAnalyze = append(imagesToAnalyze,
  imageContents[pageIndex])\<close>. Indexing a Go slice with a negative index or one that is
  not below its length panics: the result is then \<^term>\<open>None\<close>.
\<close>

fun collectImages :: "bytes list \<Rightarrow> int list \<Rightarrow> bytes list \<Rightarrow> bytes list option" where
  "collectImages imageContents [] imagesToAnalyze = Some imagesToAnalyze"
| "collectImages imageContents (pageIndex # rest) imagesToAnalyze =
     (if 0 \<le> pageIndex \<and> pageIndex < int (length imageContents)
      then collectImages imageContents rest
             (imagesToAnalyze @ [imageContents ! nat pageIndex])
      else None)"

text \<open>
  The outer loop of step 3 over the page groups. \<open>analysis k images\<close> is what the
  \<open>k\<close>-th detailed-analysis request of this file gives for the images sent. A failed
  analysis is the \<^verbatim>\<open>continue\<close> of the source.
\<close>

fun analyzeGroups ::
  "(nat \<Rightarrow> bytes list \<Rightarrow> Invoice api_reply) \<Rightarrow> bytes list \<Rightarrow> nat \<Rightarrow> page_groups \<Rightarrow>
   Invoice list \<Rightarrow> Invoice list outcome" where
  "analyzeGroups analysis imageContents k [] finalInvoices = Returned finalInvoices"
| "analyzeGroups analysis imageContents k ((invoiceID, pageIndices) # rest) finalInvoices =
     (case collectImages imageContents (selectPagesForAnalysis pageIndices) [] of
        None \<Rightarrow> Panic
      | Some imagesToAnalyze \<Rightarrow>
          (case analyzeInvoicePages (analysis k imagesToAnalyze) of
             Inl err \<Rightarrow> analyzeGroups analysis imageContents (k + 1) rest finalInvoices
           | Inr invoice \<Rightarrow>
               analyzeGroups analysis imageContents (k + 1) rest (finalInvoices @ [invoice])))"

text \<open>
  \<^verbatim>\<open>ProcessFile\<close>. The result \<^verbatim>\<open>(nil, err)\<close> is \<^term>\<open>Returned (Inl err)\<close> and
  \<^verbatim>\<open>(finalInvoices, nil)\<close> is \<^term>\<open>Returned (Inr finalInvoices)\<close>. The progress lines
  written with \<^verbatim>\<open>fmt.Printf\<close> are not part of the model.
\<close>

definition ProcessFile ::
  "string \<Rightarrow> string + bytes list \<Rightarrow> string + bytes \<Rightarrow> page_groups api_reply \<Rightarrow>
   (nat \<Rightarrow> bytes list \<Rightarrow> Invoice api_reply) \<Rightarrow> (error + Invoice list) outcome" where
  "ProcessFile ext pdf file grouping analysis =
     (case loadImages ext pdf file of
        Inl err \<Rightarrow> Returned (Inl err)
      | Inr imageContents \<Rightarrow>
          if length imageContents = 0 then Returned (Inl NoImagesFound)
          else
            (case analyzeGroups analysis imageContents 0
                    (pageGroupsOf grouping imageContents) [] of
               Panic \<Rightarrow> Panic
             | Returned finalInvoices \<Rightarrow> Returned (Inr finalInvoices)))"

section \<open>The orchestrators (cmd/reporter and cmd/web)\<close>

text \<open>
  The struct \<^verbatim>\<open>Result\<close>: the pointer \<^verbatim>\<open>Invoice\<close> is \<^term>\<open>None\<close> when nil. The struct
  \<^verbatim>\<open>UniqueCounterparty\<close> has the fields \<^verbatim>\<open>SourceFile\<close> and \<^verbatim>\<open>Counterparty\<close>; they
  are written \<open>FirstSeenIn\<close> and \<open>Entry\<close> here, as a record cannot reuse the field
  names of \<open>Result\<close> and \<open>Invoice\<close>.
\<close>

record Result =
  SourceFile :: string
  Invoice :: "Invoice option"
  ErrorMessage :: string

record UniqueCounterparty =
  FirstSeenIn :: string
  Entry :: Counterparty

text \<open>
  The body of the goroutine that \<^verbatim>\<open>main\<close> of \<^verbatim>\<open>cmd/reporter\<close> starts for each
  file, applied to what \<^verbatim>\<open>ProcessFile\<close> gave: the message sent on
  \<^verbatim>\<open>resultsChan\<close>. A panic inside the goroutine ends the program.
\<close>

definition fileResult :: "string \<Rightarrow> (error + Invoice list) outcome \<Rightarrow> Result outcome" where
  "fileResult f processed =
     (case processed of
        Panic \<Rightarrow> Panic
      | Returned (Inl err) \<Rightarrow>
          Returned \<lparr>SourceFile = f, Invoice = None, ErrorMessage = Error err\<rparr>
      | Returned (Inr invoices) \<Rightarrow>
          if length invoices > 0
          then Returned \<lparr>SourceFile = f, Invoice = Some (invoices ! 0), ErrorMessage = []\<rparr>
          else Returned \<lparr>SourceFile = f, Invoice = None,
                 ErrorMessage = ''No invoices found in file''\<rparr>)"

text \<open>
  The variables of step 5 of \<^verbatim>\<open>main\<close>, and the lines written with \<^verbatim>\<open>log.Printf\<close>
  (\<^verbatim>\<open>addLog\<close> in the web server). \<^verbatim>\<open>existingForSearch\<close> is the registry that every
  later match is made against.
\<close>

record collect_state =
  allResults :: "Result list"
  uniqueCounterparties :: "UniqueCounterparty list"
  existingForSearch :: "Counterparty list"
  successfulCount :: int
  errorCount :: int
  logged :: "string list"

definition initial :: collect_state where
  "initial = \<lparr>allResults = [], uniqueCounterparties = [], existingForSearch = [],
              successfulCount = 0, errorCount = 0, logged = []\<rparr>"

text \<open>
  One iteration of \<^verbatim>\<open>for res := range resultsChan\<close> in \<^verbatim>\<open>cmd/reporter\<close>. The copy of
  \<open>res\<close> appended to \<^verbatim>\<open>allResults\<close> shares its \<^verbatim>\<open>Invoice\<close> pointer with \<open>res\<close>, so
  the later assignment \<^verbatim>\<open>res.Invoice.Counterparty = *matched\<close> is seen through
  \<^verbatim>\<open>allResults\<close> too: the entry appended is the result after that assignment. A
  result with an empty error message and a nil invoice would dereference nil.
\<close>

definition registerNew :: "string \<Rightarrow> Counterparty \<Rightarrow> collect_state \<Rightarrow> collect_state" where
  "registerNew sourceFile counterparty st =
     st\<lparr>uniqueCounterparties :=
           uniqueCounterparties st @ [\<lparr>FirstSeenIn = sourceFile, Entry = counterparty\<rparr>],
        existingForSearch := existingForSearch st @ [counterparty]\<rparr>"

definition reporterCollect ::
  "MatchResponse api_reply \<Rightarrow> Result \<Rightarrow> collect_state \<Rightarrow> collect_state outcome" where
  "reporterCollect reply res st =
     (if ErrorMessage res \<noteq> [] then
        Returned (st\<lparr>allResults := allResults st @ [res], errorCount := errorCount st + 1\<rparr>)
      else case Invoice res of
          None \<Rightarrow> Panic
        | Some invoice \<Rightarrow>
            (let st = st\<lparr>successfulCount := successfulCount st + 1\<rparr> in
             case FindCounterparty reply (existingForSearch st) (Counterparty invoice) of
               Inl err \<Rightarrow>
                 Returned (registerNew (SourceFile res) (Counterparty invoice)
                   (st\<lparr>allResults := allResults st @ [res],
                       logged := logged st @
                         [''WARN: Could not match counterparty for '' @ SourceFile res
                            @ '': '' @ Error err]\<rparr>))
             | Inr (Some matched) \<Rightarrow>
                 Returned (st\<lparr>allResults := allResults st @
                   [res\<lparr>Invoice := Some (invoice\<lparr>Counterparty := matched\<rparr>)\<rparr>]\<rparr>)
             | Inr None \<Rightarrow>
                 Returned (registerNew (SourceFile res) (Counterparty invoice)
                   (st\<lparr>allResults := allResults st @ [res]\<rparr>))))"

text \<open>
  The same iteration in \<^verbatim>\<open>processInvoices\<close> of \<^verbatim>\<open>cmd/web\<close>. \<open>newID\<close> is the string
  that \<^verbatim>\<open>uuid.New().String()\<close> gives in this iteration; it is stored in the invoice's
  counterparty before the counterparty is registered.
\<close>

definition webCollect ::
  "MatchResponse api_reply \<Rightarrow> string \<Rightarrow> Result \<Rightarrow> collect_state \<Rightarrow> collect_state outcome" where
  "webCollect reply newID res st =
     (if ErrorMessage res \<noteq> [] then
        Returned (st\<lparr>allResults := allResults st @ [res], errorCount := errorCount st + 1,
                    logged := logged st @
                      [''Error in '' @ SourceFile res @ '': '' @ ErrorMessage res]\<rparr>)
      else case Invoice res of
          None \<Rightarrow> Panic
        | Some invoice \<Rightarrow>
            (let st = st\<lparr>successfulCount := successfulCount st + 1\<rparr>;
                 fresh = (Counterparty invoice)\<lparr>ID := newID\<rparr>;
                 res' = res\<lparr>Invoice := Some (invoice\<lparr>Counterparty := fresh\<rparr>)\<rparr>
             in
             case FindCounterparty reply (existingForSearch st) (Counterparty invoice) of
               Inl err \<Rightarrow>
                 Returned (registerNew (SourceFile res) fresh
                   (st\<lparr>allResults := allResults st @ [res'],
                       logged := logged st @
                         [''WARN: Could not match counterparty for '' @ SourceFile res
                            @ '': '' @ Error err]\<rparr>))
             | Inr (Some matched) \<Rightarrow>
                 Returned (st\<lparr>allResults := allResults st @
                   [res\<lparr>Invoice := Some (invoice\<lparr>Counterparty := matched\<rparr>)\<rparr>]\<rparr>)
             | Inr None \<Rightarrow>
                 Returned (registerNew (SourceFile res) fresh
                   (st\<lparr>allResults := allResults st @ [res']\<rparr>))))"

text \<open>
  The whole loop of \<^verbatim>\<open>cmd/reporter\<close> over the results received; \<open>replies k\<close> is what
  the matching request gives for the \<open>k\<close>-th result.
\<close>

fun reporterCollectAll ::
  "(nat \<Rightarrow> MatchResponse api_reply) \<Rightarrow> nat \<Rightarrow> Result list \<Rightarrow> collect_state \<Rightarrow>
   collect_state outcome" where
  "reporterCollectAll replies k [] st = Returned st"
| "reporterCollectAll replies k (res # rest) st =
     (case reporterCollect (replies k) res st of
        Panic \<Rightarrow> Panic
      | Returned st' \<Rightarrow> reporterCollectAll replies (k + 1) rest st')"

section \<open>Page selection on slices that share storage\<close>

text \<open>
  A Go slice is a window on a backing array. The store is the list of the arrays
  allocated so far (an address is a position in the list); a slice names its array,
  the offset of its first element and its length. The capacity plays no part here:
  \<^verbatim>\<open>selectPagesForAnalysis\<close> appends only to its own \<^verbatim>\<open>result\<close>.
\<close>

type_synonym store = "int list list"

record slice =
  arr :: nat
  off :: nat
  len :: nat

definition valid :: "store \<Rightarrow> slice \<Rightarrow> bool" where
  "valid h s = (arr s < length h \<and> off s + len s \<le> length (h ! arr s))"

definition elems :: "store \<Rightarrow> slice \<Rightarrow> int list" where
  "elems h s = take (len s) (drop (off s) (h ! arr s))"

text \<open>\<^verbatim>\<open>sort.Ints(s)\<close>: sorts the window of the slice inside its backing array.\<close>

definition sortInts :: "store \<Rightarrow> slice \<Rightarrow> store" where
  "sortInts h s =
     h[arr s := take (off s) (h ! arr s) @ sort (elems h s)
                  @ drop (off s + len s) (h ! arr s)]"

text \<open>
  \<^verbatim>\<open>result := []int{}\<close> followed by the appends: the elements end up in an array that
  did not exist before the call.
\<close>

definition newSlice :: "store \<Rightarrow> int list \<Rightarrow> store \<times> slice" where
  "newSlice h xs = (h @ [xs], \<lparr>arr = length h, off = 0, len = length xs\<rparr>)"

text \<open>
  \<^verbatim>\<open>selectPagesForAnalysis\<close> on the store: it returns the store after the call and
  the slice returned. The sub-slices \<^verbatim>\<open>pageIndices[:2]\<close> and
  \<^verbatim>\<open>pageIndices[len(pageIndices)-2:]\<close> are read from the sorted argument.
\<close>

definition selectPagesForAnalysis_store :: "store \<Rightarrow> slice \<Rightarrow> store \<times> slice" where
  "selectPagesForAnalysis_store h pageIndices =
     (if len pageIndices \<le> 4 then (h, pageIndices)
      else
        let h1 = sortInts h pageIndices;
            st1 = addUnselected (elems h1 (pageIndices\<lparr>len := 2\<rparr>)) (\<lambda>_. False, []);
            st2 = addUnselected
                    (elems h1 (pageIndices\<lparr>off := off pageIndices + (len pageIndices - 2),
                                             len := 2\<rparr>)) st1;
            (h2, result) = newSlice h1 (snd st2)
        in (sortInts h2 result, result))"

section \<open>Concrete instances\<close>

text \<open>A counterparty as extracted from a document (no identifier yet), and an invoice.\<close>

definition acme :: Counterparty where
  "acme = \<lparr>ID = [], Name = ''Acme GmbH'', VAT = ''DE811'', Country = ''DE'',
           Address = ''Hauptstr. 1'', SWIFT = [], IBAN = [], Phone = [], Fax = [],
           Email = [], Website = []\<rparr>"

definition acmeInvoice :: Invoice where
  "acmeInvoice = \<lparr>Type = 1, Number = ''INV-1'', Date = ''2024-01-02'', TotalAmount = 100,
                  TaxAmount = 0, Purpose = ''software'', Counterparty = acme\<rparr>"

definition bolt :: Counterparty where
  "bolt = \<lparr>ID = [], Name = ''Bolt SARL'', VAT = ''FR402'', Country = ''FR'',
           Address = ''1 rue de Lyon'', SWIFT = [], IBAN = [], Phone = [], Fax = [],
           Email = [], Website = []\<rparr>"

text \<open>A successful result for a file whose invoice names \<open>bolt\<close>.\<close>

definition boltResult :: Result where
  "boltResult = \<lparr>SourceFile = ''b.pdf'',
                  Invoice = Some (acmeInvoice\<lparr>Counterparty := bolt\<rparr>), ErrorMessage = []\<rparr>"

section \<open>Properties of the page selection\<close>

lemma addUnselected_members:
  assumes "\<forall>x. selected x \<longleftrightarrow> x \<in> set result" and "distinct result"
  shows "distinct (snd (addUnselected xs (selected, result)))
    \<and> set (snd (addUnselected xs (selected, result))) = set result \<union> set xs
    \<and> (\<forall>x. fst (addUnselected xs (selected, result)) x
             \<longleftrightarrow> x \<in> set (snd (addUnselected xs (selected, result))))"
  using assms
proof (induction xs arbitrary: selected result)
  case Nil
  then show ?case by simp
next
  case (Cons idx rest)
  show ?case
  proof (cases "selected idx")
    case True
    then have step: "addUnselected (idx # rest) (selected, result)
                 = addUnselected rest (selected, result)"
      by simp
    have "idx \<in> set result" using True Cons.prems(1) by simp
    then show ?thesis
      unfolding step using Cons.IH [OF Cons.prems] by auto
  next
    case False
    define selected' where "selected' = selected(idx := True)"
    have step: "addUnselected (idx # rest) (selected, result)
                 = addUnselected rest (selected', result @ [idx])"
      using False by (simp add: selected'_def)
    have m: "\<forall>x. selected' x \<longleftrightarrow> x \<in> set (result @ [idx])"
      using Cons.prems(1) by (auto simp: selected'_def)
    have d: "distinct (result @ [idx])"
      using False Cons.prems by simp
    show ?thesis
      unfolding step using Cons.IH [OF m d] by auto
  qed
qed

lemma ends_of_long_list:
  assumes "4 < length (s :: 'a list)"
  obtains a b mid c d where "s = a # b # mid @ [c, d]"
proof -
  from assms obtain a b t where s: "s = a # b # t" and t: "2 < length t"
    by (cases s; cases "tl s") auto
  from t obtain u d where u: "t = u @ [d]" and lu: "1 < length u"
    by (cases t rule: rev_cases) auto
  from lu obtain mid c where "u = mid @ [c]"
    by (cases u rule: rev_cases) auto
  with s u have "s = a # b # mid @ [c, d]" by simp
  then show thesis by (rule that)
qed

lemma selectPagesForAnalysis_deduplicates:
  assumes long: "4 < length pageIndices"
  shows "selectPagesForAnalysis pageIndices
           = sorted_list_of_set (set (take 2 (sort pageIndices))
                \<union> set (drop (length pageIndices - 2) (sort pageIndices)))"
proof -
  define first where "first = take 2 (sort pageIndices)"
  define last where "last = drop (length (sort pageIndices) - 2) (sort pageIndices)"
  obtain sel1 res1 where st1: "addUnselected first (\<lambda>_. False, []) = (sel1, res1)"
    by (cases "addUnselected first (\<lambda>_. False, [])")
  have i1: "distinct res1 \<and> set res1 = set first \<and> (\<forall>x. sel1 x \<longleftrightarrow> x \<in> set res1)"
    using addUnselected_members [of "\<lambda>_. False" "[]" first] st1 by simp
  define res2 where "res2 = snd (addUnselected last (sel1, res1))"
  have i2: "distinct res2 \<and> set res2 = set res1 \<union> set last"
    using addUnselected_members [of sel1 res1 last] i1 by (simp add: res2_def)
  have "\<not> length pageIndices \<le> 4" using long by simp
  then have "selectPagesForAnalysis pageIndices = sort res2"
    by (simp only: selectPagesForAnalysis_def Let_def if_False res2_def
        first_def [symmetric] last_def [symmetric] st1)
  also have "\<dots> = sort (remdups res2)"
    using i2 by (simp add: distinct_remdups_id)
  also have "\<dots> = sorted_list_of_set (set res2)"
    by (simp add: sorted_list_of_set_sort_remdups)
  also have "set res2 = set first \<union> set last"
    using i1 i2 by simp
  finally show ?thesis by (simp add: first_def last_def)
qed

lemma count_list_sort: "count_list (sort xs) x = count_list xs x"
  by (simp add: count_list_eq_length_filter filter_sort)

lemma lowest_two:
  assumes "a < b" and "sorted (a # b # rest)"
  shows "Min (set (a # b # rest)) = a"
    and "Min (set (a # b # rest) - {Min (set (a # b # rest))}) = (b::int)"
proof -
  show m: "Min (set (a # b # rest)) = a"
    by (rule Min_eqI) (use assms in auto)
  have "set (a # b # rest) - {a} = set (b # rest)" using assms by auto
  moreover have "Min (set (b # rest)) = b"
    by (rule Min_eqI) (use assms in auto)
  ultimately show "Min (set (a # b # rest) - {Min (set (a # b # rest))}) = b"
    using m by simp
qed

lemma highest_two:
  assumes "c < d" and "sorted (front @ [c, d])"
  shows "Max (set (front @ [c, d])) = d"
    and "Max (set (front @ [c, d]) - {Max (set (front @ [c, d]))}) = (c::int)"
proof -
  show m: "Max (set (front @ [c, d])) = d"
    by (rule Max_eqI) (use assms in \<open>auto simp: sorted_append\<close>)
  have "set (front @ [c, d]) - {d} = set (front @ [c])"
    using assms by (auto simp: sorted_append)
  moreover have "Max (set (front @ [c])) = c"
    by (rule Max_eqI) (use assms in \<open>auto simp: sorted_append\<close>)
  ultimately show "Max (set (front @ [c, d]) - {Max (set (front @ [c, d]))}) = c"
    using m by simp
qed

lemma count_lowest:
  assumes "sorted (a # b # rest)"
  shows "count_list (a # b # rest) a = 1 \<longleftrightarrow> a < (b::int)"
proof (cases "a = b")
  case True
  then show ?thesis by simp
next
  case False
  then have "a \<notin> set (b # rest)" using assms by auto
  then have "count_list (b # rest) a = 0" by (rule count_notin)
  then show ?thesis using False assms by simp
qed

lemma count_highest:
  assumes "sorted (front @ [c, d])"
  shows "count_list (front @ [c, d]) d = 1 \<longleftrightarrow> c < (d::int)"
proof (cases "c = d")
  case True
  then show ?thesis by simp
next
  case False
  then have "d \<notin> set (front @ [c])" using assms by (auto simp: sorted_append)
  then have "count_list (front @ [c]) d = 0" by (rule count_notin)
  then show ?thesis using False assms by (auto simp: sorted_append)
qed

lemma four_ends:
  assumes "a \<le> b" "b < c" "c \<le> (d::int)"
  shows "length (sorted_list_of_set {a, b, c, d}) = 4 \<longleftrightarrow> a < b \<and> c < d"
    and "a < b \<Longrightarrow> c < d \<Longrightarrow> sorted_list_of_set {a, b, c, d} = [a, b, c, d]"
proof -
  have len: "length (sorted_list_of_set {a, b, c, d}) = card {a, b, c, d}"
    by (rule length_sorted_list_of_set)
  show "length (sorted_list_of_set {a, b, c, d}) = 4 \<longleftrightarrow> a < b \<and> c < d"
  proof (cases "a < b \<and> c < d")
    case True
    then have "a \<noteq> b" "a \<noteq> c" "a \<noteq> d" "b \<noteq> c" "b \<noteq> d" "c \<noteq> d"
      using assms by auto
    then have "card {a, b, c, d} = 4" by simp
    then show ?thesis using True unfolding len by blast
  next
    case False
    then have "{a, b, c, d} = {b, c, d} \<or> {a, b, c, d} = {a, b, c}" using assms by auto
    then have "card {a, b, c, d} \<le> 3"
      by (auto simp: card_insert_if)
    then have "card {a, b, c, d} \<noteq> 4" by simp
    then show ?thesis using False unfolding len by blast
  qed
  assume lt: "a < b" "c < d"
  have "sorted_list_of_set (set [a, b, c, d]) = sort (remdups [a, b, c, d])"
    by (rule sorted_list_of_set_sort_remdups)
  also have "remdups [a, b, c, d] = [a, b, c, d]"
    using lt assms by (intro distinct_remdups_id) simp
  also have "sort [a, b, c, d] = [a, b, c, d]"
    using lt assms by (intro sort_key_id_if_sorted) simp
  finally show "sorted_list_of_set {a, b, c, d} = [a, b, c, d]" by simp
qed

text \<open>
  C2 (as amended). For a page group with more than 4 distinct ordinals,
  \<^verbatim>\<open>selectPagesForAnalysis\<close> returns the ascending list, without repetition, of the
  first two and the last two entries of the sorted group. It has exactly 4 elements
  exactly when the lowest and the highest ordinal of the group each occur once in it,
  and it is then the lowest, the second lowest, the second highest and the highest
  ordinal of the group, in strictly ascending order. Ordinals repeated in between do
  not matter.
\<close>

theorem select_more_than_four:
  assumes "4 < card (set pageIndices)"
  shows "selectPagesForAnalysis pageIndices
           = sorted_list_of_set (set (take 2 (sort pageIndices))
                \<union> set (drop (length pageIndices - 2) (sort pageIndices)))
    \<and> (length (selectPagesForAnalysis pageIndices) = 4 \<longleftrightarrow>
         count_list pageIndices (Min (set pageIndices)) = 1
         \<and> count_list pageIndices (Max (set pageIndices)) = 1)
    \<and> (count_list pageIndices (Min (set pageIndices)) = 1
         \<and> count_list pageIndices (Max (set pageIndices)) = 1 \<longrightarrow>
         selectPagesForAnalysis pageIndices =
           [Min (set pageIndices), Min (set pageIndices - {Min (set pageIndices)}),
            Max (set pageIndices - {Max (set pageIndices)}), Max (set pageIndices)]
         \<and> sorted_wrt (<) (selectPagesForAnalysis pageIndices))"
proof -
  have long: "4 < length pageIndices"
    using assms card_length [of pageIndices] by simp
  then have "4 < length (sort pageIndices)" by simp
  then obtain a b mid c d where srt: "sort pageIndices = a # b # mid @ [c, d]"
    by (rule ends_of_long_list)
  have s: "sorted (a # b # mid @ [c, d])" using srt by (metis sorted_sort)
  have s': "sorted ((a # b # mid) @ [c, d])" using s by simp
  have S: "set pageIndices = set (a # b # mid @ [c, d])" using srt by (metis set_sort)
  have S': "set pageIndices = set ((a # b # mid) @ [c, d])" using S by simp
  have len: "length pageIndices = length mid + 4"
    using arg_cong [OF srt, of length] by simp
  have le: "a \<le> b" "b \<le> c" "c \<le> d" "\<forall>x \<in> set mid. b \<le> x \<and> x \<le> c"
    using s by (auto simp: sorted_append)
  have bc: "b < c"
  proof (rule ccontr)
    assume "\<not> b < c"
    then have "b = c" using le by simp
    then have "set pageIndices \<subseteq> {a, b, d}" using S le by auto
    then have "card (set pageIndices) \<le> card {a, b, d}" by (intro card_mono) auto
    also have "\<dots> \<le> 3" by (simp add: card_insert_if)
    finally show False using assms by simp
  qed
  have ends: "set (take 2 (sort pageIndices))
                \<union> set (drop (length pageIndices - 2) (sort pageIndices)) = {a, b, c, d}"
    unfolding srt len by (auto simp: numeral_2_eq_2)
  have gen: "selectPagesForAnalysis pageIndices = sorted_list_of_set {a, b, c, d}"
    using selectPagesForAnalysis_deduplicates [OF long] ends by simp
  have mn: "Min (set pageIndices) = a"
    unfolding S by (rule Min_eqI) (use s in auto)
  have mx: "Max (set pageIndices) = d"
    unfolding S' by (rule Max_eqI) (use s' in \<open>auto simp: sorted_append\<close>)
  have "count_list pageIndices a = count_list (a # b # mid @ [c, d]) a"
    by (simp only: srt [symmetric] count_list_sort)
  then have ca: "count_list pageIndices a = 1 \<longleftrightarrow> a < b"
    using count_lowest [OF s] by (simp only:)
  have "count_list pageIndices d = count_list ((a # b # mid) @ [c, d]) d"
    using count_list_sort [of pageIndices d] by (simp only: srt append_Cons)
  then have cd: "count_list pageIndices d = 1 \<longleftrightarrow> c < d"
    using count_highest [OF s'] by (simp only:)
  have four: "length (selectPagesForAnalysis pageIndices) = 4 \<longleftrightarrow> a < b \<and> c < d"
    unfolding gen by (rule four_ends(1) [OF le(1) bc le(3)])
  have exact: "selectPagesForAnalysis pageIndices =
           [Min (set pageIndices), Min (set pageIndices - {Min (set pageIndices)}),
            Max (set pageIndices - {Max (set pageIndices)}), Max (set pageIndices)]
         \<and> sorted_wrt (<) (selectPagesForAnalysis pageIndices)"
    if lt: "a < b" "c < d"
  proof -
    have sel: "selectPagesForAnalysis pageIndices = [a, b, c, d]"
      unfolding gen by (rule four_ends(2) [OF le(1) bc le(3) lt])
    have lo: "Min (set pageIndices - {Min (set pageIndices)}) = b"
      unfolding S using lowest_two(2) [OF lt(1) s] by simp
    have hi: "Max (set pageIndices - {Max (set pageIndices)}) = c"
      unfolding S' using highest_two(2) [OF lt(2) s'] by simp
    show ?thesis using sel mn mx lo hi lt bc by simp
  qed
  have counts: "count_list pageIndices (Min (set pageIndices)) = 1
                  \<and> count_list pageIndices (Max (set pageIndices)) = 1
                \<longleftrightarrow> a < b \<and> c < d"
    unfolding mn mx ca cd ..
  show ?thesis
  proof (intro conjI impI)
    show "selectPagesForAnalysis pageIndices
            = sorted_list_of_set (set (take 2 (sort pageIndices))
                 \<union> set (drop (length pageIndices - 2) (sort pageIndices)))"
      by (rule selectPagesForAnalysis_deduplicates [OF long])
    show "length (selectPagesForAnalysis pageIndices) = 4 \<longleftrightarrow>
            count_list pageIndices (Min (set pageIndices)) = 1
            \<and> count_list pageIndices (Max (set pageIndices)) = 1"
      unfolding counts by (rule four)
  next
    assume "count_list pageIndices (Min (set pageIndices)) = 1
              \<and> count_list pageIndices (Max (set pageIndices)) = 1"
    then have lt: "a < b" "c < d" using counts by simp_all
    show "selectPagesForAnalysis pageIndices =
           [Min (set pageIndices), Min (set pageIndices - {Min (set pageIndices)}),
            Max (set pageIndices - {Max (set pageIndices)}), Max (set pageIndices)]"
      by (rule exact [OF lt, THEN conjunct1])
    show "sorted_wrt (<) (selectPagesForAnalysis pageIndices)"
      by (rule exact [OF lt, THEN conjunct2])
  qed
qed

theorem select_more_than_four_witness:
  "4 < card (set [0, 1, 2, 2, 3, 4 :: int])
   \<and> count_list [0, 1, 2, 2, 3, 4 :: int] (Min (set [0, 1, 2, 2, 3, 4])) = 1
   \<and> count_list [0, 1, 2, 2, 3, 4 :: int] (Max (set [0, 1, 2, 2, 3, 4])) = 1
   \<and> selectPagesForAnalysis [0, 1, 2, 2, 3, 4] = [0, 1, 3, 4]
   \<and> Min (set [0, 1, 2, 2, 3, 4 :: int] - {Min (set [0, 1, 2, 2, 3, 4])}) = 1
   \<and> Max (set [0, 1, 2, 2, 3, 4 :: int] - {Max (set [0, 1, 2, 2, 3, 4])}) = 3
   \<and> 4 < card (set [4, 0, 1, 2, 3, 0 :: int])
   \<and> count_list [4, 0, 1, 2, 3, 0 :: int] (Min (set [4, 0, 1, 2, 3, 0])) = 2
   \<and> selectPagesForAnalysis [4, 0, 1, 2, 3, 0] = [0, 3, 4]
   \<and> length (selectPagesForAnalysis [4, 0, 1, 2, 3, 0]) \<noteq> 4"
  using select_more_than_four [of "[0, 1, 2, 2, 3, 4]"]
    select_more_than_four [of "[4, 0, 1, 2, 3, 0]"]
  by (simp add: selectPagesForAnalysis_def card_insert_if)

text \<open>
  C2 as stated fails when the lowest ordinal is repeated: the group
  \<open>[0, 0, 1, 2, 3, 4]\<close> holds 5 distinct ordinals, and 3 elements come back, without
  the second lowest ordinal \<open>1\<close>.
\<close>

theorem select_more_than_four_counterexample:
  "card (set [0, 0, 1, 2, 3, 4 :: int]) = 5
   \<and> selectPagesForAnalysis [0, 0, 1, 2, 3, 4] = [0, 3, 4]"
  by (simp add: selectPagesForAnalysis_def)

text \<open>
  C1. For a page group with 4 or fewer ordinals \<^verbatim>\<open>selectPagesForAnalysis\<close> returns its
  argument before any sorting. The group \<open>[2, 1]\<close> comes back as \<open>[2, 1]\<close>, not in
  its ascending order \<open>[1, 2]\<close>, and \<^verbatim>\<open>ProcessFile\<close> sends the image of page 2 before
  the image of page 1 to the analysis (the analysis here answers only to the images in
  that order).
\<close>

theorem short_group_keeps_given_order:
  "length [2, 1 :: int] \<le> 4
   \<and> selectPagesForAnalysis [2, 1] = [2, 1]
   \<and> sort [2, 1 :: int] = [1, 2]
   \<and> ProcessFile ''.pdf'' (Inr [[10], [11], [12]]) (Inl [])
        (Parsed [(''INV-7'', [2, 1])])
        (\<lambda>k images. if images = [[12], [11]] then Parsed acmeInvoice else NoChoices)
      = Returned (Inr [acmeInvoice])"
  by (simp add: selectPagesForAnalysis_def ProcessFile_def loadImages_def pageGroupsOf_def
      groupPagesByInvoice_def analyzeInvoicePages_def)

section \<open>Properties of \<^verbatim>\<open>ProcessFile\<close>\<close>

lemma addUnselected_subset:
  "set (snd (addUnselected xs (selected, result))) \<subseteq> set result \<union> set xs"
proof (induction xs arbitrary: selected result)
  case Nil
  show ?case by simp
next
  case (Cons idx rest)
  show ?case
  proof (cases "selected idx")
    case True
    then have "addUnselected (idx # rest) (selected, result)
                 = addUnselected rest (selected, result)"
      by simp
    then show ?thesis using Cons.IH [of selected result] by auto
  next
    case False
    then have "addUnselected (idx # rest) (selected, result)
                 = addUnselected rest (selected(idx := True), result @ [idx])"
      by simp
    moreover have "set (snd (addUnselected rest (selected(idx := True), result @ [idx])))
                     \<subseteq> set (result @ [idx]) \<union> set rest"
      by (rule Cons.IH)
    ultimately show ?thesis by auto
  qed
qed

lemma selectPagesForAnalysis_subset:
  "set (selectPagesForAnalysis pageIndices) \<subseteq> set pageIndices"
proof (cases "length pageIndices \<le> 4")
  case True
  then show ?thesis by (simp add: selectPagesForAnalysis_def)
next
  case False
  obtain sel1 res1 where st1:
    "addUnselected (take 2 (sort pageIndices)) (\<lambda>_. False, []) = (sel1, res1)"
    by (cases "addUnselected (take 2 (sort pageIndices)) (\<lambda>_. False, [])")
  have r1: "set res1 \<subseteq> set (take 2 (sort pageIndices))"
    using addUnselected_subset [of "take 2 (sort pageIndices)" "\<lambda>_. False" "[]"] st1 by simp
  have r2: "set (snd (addUnselected (drop (length (sort pageIndices) - 2) (sort pageIndices)) (sel1, res1)))
        \<subseteq> set res1 \<union> set (drop (length (sort pageIndices) - 2) (sort pageIndices))"
    by (rule addUnselected_subset)
  have "set (take 2 (sort pageIndices)) \<subseteq> set pageIndices"
    using set_take_subset [of 2 "sort pageIndices"] by simp
  moreover have "set (drop (length (sort pageIndices) - 2) (sort pageIndices)) \<subseteq> set pageIndices"
    using set_drop_subset [of "length (sort pageIndices) - 2" "sort pageIndices"] by simp
  ultimately have "set (snd (addUnselected (drop (length (sort pageIndices) - 2) (sort pageIndices)) (sel1, res1)))
        \<subseteq> set pageIndices"
    using r1 r2 by blast
  then show ?thesis using False st1 by (simp add: selectPagesForAnalysis_def Let_def)
qed

lemma collectImages_in_range:
  "\<forall>i \<in> set pages. 0 \<le> i \<and> i < int (length imageContents) \<Longrightarrow>
   collectImages imageContents pages acc
     = Some (acc @ map (\<lambda>i. imageContents ! nat i) pages)"
  by (induction pages arbitrary: acc) auto

lemma collectImages_out_of_range:
  "\<exists>i \<in> set pages. \<not> (0 \<le> i \<and> i < int (length imageContents)) \<Longrightarrow>
   collectImages imageContents pages acc = None"
  by (induction pages arbitrary: acc) auto

lemma appendIndices_eq:
  "appendIndices xs i entry = entry @ map (\<lambda>k. i + int k) [0..<length xs]"
proof (induction xs arbitrary: i entry)
  case Nil
  show ?case by simp
next
  case (Cons x xs)
  have "map (\<lambda>k. i + int k) [0..<Suc (length xs)]
          = i # map (\<lambda>k. (i + 1) + int k) [0..<length xs]"
    by (simp add: upt_rec [of 0] map_Suc_upt [symmetric] del: upt_Suc)
  then show ?case using Cons.IH [of "i + 1" "entry @ [i]"] by simp
qed

lemma appendIndices_all: "appendIndices xs 0 [] = map int [0..<length xs]"
  by (simp add: appendIndices_eq)

lemma analyzeGroups_in_range:
  "\<forall>g \<in> set groups. \<forall>i \<in> set (snd g). 0 \<le> i \<and> i < int (length imageContents) \<Longrightarrow>
   analyzeGroups analysis imageContents k groups finalInvoices =
     Returned (finalInvoices @ concat (map
       (\<lambda>(n, g). case analyzeInvoicePages (analysis n
                        (map (\<lambda>i. imageContents ! nat i) (selectPagesForAnalysis (snd g)))) of
                   Inl err \<Rightarrow> [] | Inr invoice \<Rightarrow> [invoice])
       (enumerate k groups)))"
proof (induction groups arbitrary: k finalInvoices)
  case Nil
  show ?case by simp
next
  case (Cons g rest)
  obtain invoiceID pageIndices where g: "g = (invoiceID, pageIndices)" by (cases g)
  have "\<forall>i \<in> set (selectPagesForAnalysis pageIndices). 0 \<le> i \<and> i < int (length imageContents)"
    using Cons.prems g selectPagesForAnalysis_subset [of pageIndices] by auto
  then have c: "collectImages imageContents (selectPagesForAnalysis pageIndices) []
      = Some (map (\<lambda>i. imageContents ! nat i) (selectPagesForAnalysis pageIndices))"
    using collectImages_in_range [of "selectPagesForAnalysis pageIndices" imageContents "[]"]
    by simp
  have r: "\<forall>g \<in> set rest. \<forall>i \<in> set (snd g). 0 \<le> i \<and> i < int (length imageContents)"
    using Cons.prems by simp
  show ?case
    using c g Cons.IH [OF r] by (simp split: sum.split)
qed

text \<open>
  C3. When the document has been rendered into \<open>N \<ge> 1\<close> pages and the grouping call
  fails (the request fails, the response has no choice, or its content does not
  parse), \<^verbatim>\<open>groupPagesByInvoice\<close> returns an error and
  \<^verbatim>\<open>ProcessFile\<close> goes on with the single group \<^verbatim>\<open>"single_invoice"\<close> whose pages are
  the ordinals \<open>0, \<dots>, N - 1\<close> in this order. It neither returns an error nor panics:
  it returns the invoice of that group when its analysis succeeds, and no invoice
  otherwise, with a nil error.
\<close>

theorem grouping_fallback:
  assumes "loadImages ext pdf file = Inr imageContents"
    and "imageContents \<noteq> []"
    and "grouping \<in> {RequestFailed d, NoChoices, BadJSON d c}"
  shows "isl (groupPagesByInvoice grouping)
    \<and> pageGroupsOf grouping imageContents
           = [(''single_invoice'', map int [0..<length imageContents])]
    \<and> ProcessFile ext pdf file grouping analysis
           = Returned (Inr (case analyzeInvoicePages (analysis 0
                  (map (\<lambda>i. imageContents ! nat i)
                     (selectPagesForAnalysis (map int [0..<length imageContents])))) of
               Inl e \<Rightarrow> [] | Inr invoice \<Rightarrow> [invoice]))"
proof -
  obtain err where failed: "groupPagesByInvoice grouping = Inl err"
    using assms(3) by (auto simp: groupPagesByInvoice_def)
  have pg: "pageGroupsOf grouping imageContents
              = [(''single_invoice'', map int [0..<length imageContents])]"
    using failed by (simp add: pageGroupsOf_def appendIndices_all)
  have "\<forall>g \<in> set [(''single_invoice'', map int [0..<length imageContents])].
          \<forall>i \<in> set (snd g). 0 \<le> i \<and> i < int (length imageContents)"
    by auto
  from analyzeGroups_in_range [OF this, of analysis 0 "[]"]
  have "analyzeGroups analysis imageContents 0
          [(''single_invoice'', map int [0..<length imageContents])] []
        = Returned (case analyzeInvoicePages (analysis 0
                  (map (\<lambda>i. imageContents ! nat i)
                     (selectPagesForAnalysis (map int [0..<length imageContents])))) of
               Inl e \<Rightarrow> [] | Inr invoice \<Rightarrow> [invoice])"
    by simp
  then show ?thesis using pg failed assms(1,2) by (simp add: ProcessFile_def)
qed

theorem grouping_fallback_witness:
  "loadImages ''.pdf'' (Inr [[1], [2], [3]]) (Inl []) = Inr [[1], [2], [3]]
   \<and> groupPagesByInvoice (RequestFailed ''timeout'') = Inl (GroupingRequestFailed ''timeout'')
   \<and> pageGroupsOf (RequestFailed ''timeout'') [[1], [2], [3]]
        = [(''single_invoice'', [0, 1, 2])]
   \<and> ProcessFile ''.pdf'' (Inr [[1], [2], [3]]) (Inl []) (RequestFailed ''timeout'')
        (\<lambda>k images. if images = [[1], [2], [3]] then Parsed acmeInvoice else NoChoices)
      = Returned (Inr [acmeInvoice])
   \<and> groupPagesByInvoice (NoChoices :: page_groups api_reply) = Inl GroupingNoChoices
   \<and> pageGroupsOf NoChoices [[1], [2], [3]] = [(''single_invoice'', [0, 1, 2])]
   \<and> ProcessFile ''.pdf'' (Inr [[1], [2], [3]]) (Inl []) NoChoices
        (\<lambda>k images. if images = [[1], [2], [3]] then Parsed acmeInvoice else NoChoices)
      = Returned (Inr [acmeInvoice])
   \<and> groupPagesByInvoice (BadJSON ''unexpected end of JSON input'' ''{'')
        = Inl (GroupingUnmarshalFailed ''unexpected end of JSON input'' ''{'')
   \<and> pageGroupsOf (BadJSON ''unexpected end of JSON input'' ''{'') [[1], [2], [3]]
        = [(''single_invoice'', [0, 1, 2])]
   \<and> ProcessFile ''.pdf'' (Inr [[1], [2], [3]]) (Inl [])
        (BadJSON ''unexpected end of JSON input'' ''{'')
        (\<lambda>k images. if images = [[1], [2], [3]] then Parsed acmeInvoice else NoChoices)
      = Returned (Inr [acmeInvoice])"
  using
    grouping_fallback [of "''.pdf''" "Inr [[1], [2], [3]]" "Inl []" "[[1], [2], [3]]"
      "RequestFailed ''timeout''" "''timeout''" "[]"
      "\<lambda>k images. if images = [[1], [2], [3]] then Parsed acmeInvoice else NoChoices"]
    grouping_fallback [of "''.pdf''" "Inr [[1], [2], [3]]" "Inl []" "[[1], [2], [3]]"
      NoChoices "[]" "[]"
      "\<lambda>k images. if images = [[1], [2], [3]] then Parsed acmeInvoice else NoChoices"]
    grouping_fallback [of "''.pdf''" "Inr [[1], [2], [3]]" "Inl []" "[[1], [2], [3]]"
      "BadJSON ''unexpected end of JSON input'' ''{''" "''unexpected end of JSON input''" "''{''"
      "\<lambda>k images. if images = [[1], [2], [3]] then Parsed acmeInvoice else NoChoices"]
  by (simp add: loadImages_def groupPagesByInvoice_def analyzeInvoicePages_def
      selectPagesForAnalysis_def upt_rec [of 0] upt_rec [of 1] upt_rec [of 2])

text \<open>
  C7. \<^verbatim>\<open>ProcessFile\<close> does not check the ordinals of a grouping response against the
  number of pages. For a one-page image and the grouping response
  \<^verbatim>\<open>{"INV-1": [5]}\<close> the lookup \<^verbatim>\<open>imageContents[5]\<close> is out of bounds and the
  function panics instead of returning an error value, whatever the analysis would
  answer.
\<close>

theorem out_of_range_ordinal_panics:
  "ProcessFile ''.png'' (Inl []) (Inr [137, 80]) (Parsed [(''INV-1'', [5])]) analysis = Panic"
  by (simp add: ProcessFile_def loadImages_def pageGroupsOf_def groupPagesByInvoice_def
      selectPagesForAnalysis_def)

text \<open>
  C8. When the pages of a document were grouped (every ordinal of every group is a page
  of the document), \<^verbatim>\<open>ProcessFile\<close> analyses every group, in the order in which the
  groups are visited, and returns with a nil error the invoices of exactly the groups
  whose analysis succeeds: a group whose analysis fails contributes nothing and stops
  nothing.
\<close>

theorem extraction_failure_per_group:
  assumes "loadImages ext pdf file = Inr imageContents"
    and "imageContents \<noteq> []"
    and "\<forall>g \<in> set (pageGroupsOf grouping imageContents).
           \<forall>i \<in> set (snd g). 0 \<le> i \<and> i < int (length imageContents)"
  shows "ProcessFile ext pdf file grouping analysis
           = Returned (Inr (concat (map
               (\<lambda>(n, g). case analyzeInvoicePages (analysis n
                              (map (\<lambda>i. imageContents ! nat i)
                                 (selectPagesForAnalysis (snd g)))) of
                           Inl err \<Rightarrow> [] | Inr invoice \<Rightarrow> [invoice])
               (enumerate 0 (pageGroupsOf grouping imageContents)))))"
  using assms(1,2) analyzeGroups_in_range [OF assms(3), of analysis 0 "[]"]
  by (simp add: ProcessFile_def)

theorem extraction_failure_per_group_witness:
  "loadImages ''.pdf'' (Inr [[1], [2], [3]]) (Inl []) = Inr [[1], [2], [3]]
   \<and> pageGroupsOf (Parsed [(''A'', [0]), (''B'', [2, 1])]) [[1], [2], [3]]
        = [(''A'', [0]), (''B'', [2, 1])]
   \<and> analyzeInvoicePages (RequestFailed ''timeout'') = Inl (AnalysisRequestFailed ''timeout'')
   \<and> ProcessFile ''.pdf'' (Inr [[1], [2], [3]]) (Inl []) (Parsed [(''A'', [0]), (''B'', [2, 1])])
        (\<lambda>k images. if k = 0 then RequestFailed ''timeout'' else Parsed acmeInvoice)
      = Returned (Inr [acmeInvoice])"
  using extraction_failure_per_group [of "''.pdf''" "Inr [[1], [2], [3]]" "Inl []"
      "[[1], [2], [3]]" "Parsed [(''A'', [0]), (''B'', [2, 1])]"
      "\<lambda>k images. if k = 0 then RequestFailed ''timeout'' else Parsed acmeInvoice"]
  by (simp add: loadImages_def pageGroupsOf_def groupPagesByInvoice_def
      analyzeInvoicePages_def selectPagesForAnalysis_def)

text \<open>
  C10. When the analysis fails for every page group of a document, \<^verbatim>\<open>ProcessFile\<close>
  returns the empty invoice list with a nil error, the same value as for a document
  whose grouping holds no group at all; the goroutine of the orchestrator turns it
  into the result with the message \<^verbatim>\<open>"No invoices found in file"\<close>.
\<close>

theorem all_extractions_fail:
  assumes "loadImages ext pdf file = Inr imageContents"
    and "imageContents \<noteq> []"
    and "\<forall>g \<in> set (pageGroupsOf grouping imageContents).
           \<forall>i \<in> set (snd g). 0 \<le> i \<and> i < int (length imageContents)"
    and "\<forall>n images. \<exists>err. analyzeInvoicePages (analysis n images) = Inl err"
  shows "ProcessFile ext pdf file grouping analysis = Returned (Inr [])
    \<and> ProcessFile ext pdf file (Parsed []) analysis = Returned (Inr [])
    \<and> fileResult f (ProcessFile ext pdf file grouping analysis)
        = Returned \<lparr>SourceFile = f, Invoice = None,
                    ErrorMessage = ''No invoices found in file''\<rparr>"
proof -
  have "analyzeGroups analysis imageContents 0 (pageGroupsOf grouping imageContents) []
          = Returned (concat (map
               (\<lambda>(n, g). case analyzeInvoicePages (analysis n
                              (map (\<lambda>i. imageContents ! nat i)
                                 (selectPagesForAnalysis (snd g)))) of
                           Inl err \<Rightarrow> [] | Inr invoice \<Rightarrow> [invoice])
               (enumerate 0 (pageGroupsOf grouping imageContents))))"
    using analyzeGroups_in_range [OF assms(3), of analysis 0 "[]"] by simp
  moreover have "\<And>n images. (case analyzeInvoicePages (analysis n images) of
                    Inl err \<Rightarrow> [] | Inr invoice \<Rightarrow> [invoice]) = []"
  proof -
    fix n images
    from assms(4) obtain err where "analyzeInvoicePages (analysis n images) = Inl err"
      by blast
    then show "(case analyzeInvoicePages (analysis n images) of
                    Inl err \<Rightarrow> [] | Inr invoice \<Rightarrow> [invoice]) = []" by simp
  qed
  ultimately have "analyzeGroups analysis imageContents 0
                     (pageGroupsOf grouping imageContents) [] = Returned []"
    by (simp add: case_prod_unfold)
  then have p: "ProcessFile ext pdf file grouping analysis = Returned (Inr [])"
    using assms(1,2) by (simp add: ProcessFile_def)
  have e: "ProcessFile ext pdf file (Parsed []) analysis = Returned (Inr [])"
    using assms(1,2) by (simp add: ProcessFile_def pageGroupsOf_def groupPagesByInvoice_def)
  show ?thesis using p e by (simp add: fileResult_def)
qed

theorem all_extractions_fail_witness:
  "loadImages ''.pdf'' (Inr [[1], [2], [3]]) (Inl []) = Inr [[1], [2], [3]]
   \<and> pageGroupsOf (Parsed [(''A'', [0]), (''B'', [2, 1])]) [[1], [2], [3]]
        = [(''A'', [0]), (''B'', [2, 1])]
   \<and> ProcessFile ''.pdf'' (Inr [[1], [2], [3]]) (Inl []) (Parsed [(''A'', [0]), (''B'', [2, 1])])
        (\<lambda>k images. NoChoices) = Returned (Inr [])
   \<and> fileResult ''scan.pdf''
        (ProcessFile ''.pdf'' (Inr [[1], [2], [3]]) (Inl [])
           (Parsed [(''A'', [0]), (''B'', [2, 1])]) (\<lambda>k images. NoChoices))
      = Returned \<lparr>SourceFile = ''scan.pdf'', Invoice = None,
                  ErrorMessage = ''No invoices found in file''\<rparr>"
  using all_extractions_fail [of "''.pdf''" "Inr [[1], [2], [3]]" "Inl []"
      "[[1], [2], [3]]" "Parsed [(''A'', [0]), (''B'', [2, 1])]" "\<lambda>k images. NoChoices"
      "''scan.pdf''"]
  by (simp add: loadImages_def pageGroupsOf_def groupPagesByInvoice_def
      analyzeInvoicePages_def fileResult_def)

section \<open>Properties of merging and matching\<close>

lemma fill_if_empty:
  "(if VAT m = [] \<and> VAT n \<noteq> [] then m\<lparr>VAT := VAT n\<rparr> else m)
     = m\<lparr>VAT := (if VAT m = [] then VAT n else VAT m)\<rparr>"
  "(if SWIFT m = [] \<and> SWIFT n \<noteq> [] then m\<lparr>SWIFT := SWIFT n\<rparr> else m)
     = m\<lparr>SWIFT := (if SWIFT m = [] then SWIFT n else SWIFT m)\<rparr>"
  "(if IBAN m = [] \<and> IBAN n \<noteq> [] then m\<lparr>IBAN := IBAN n\<rparr> else m)
     = m\<lparr>IBAN := (if IBAN m = [] then IBAN n else IBAN m)\<rparr>"
  "(if Phone m = [] \<and> Phone n \<noteq> [] then m\<lparr>Phone := Phone n\<rparr> else m)
     = m\<lparr>Phone := (if Phone m = [] then Phone n else Phone m)\<rparr>"
  "(if Fax m = [] \<and> Fax n \<noteq> [] then m\<lparr>Fax := Fax n\<rparr> else m)
     = m\<lparr>Fax := (if Fax m = [] then Fax n else Fax m)\<rparr>"
  "(if Email m = [] \<and> Email n \<noteq> [] then m\<lparr>Email := Email n\<rparr> else m)
     = m\<lparr>Email := (if Email m = [] then Email n else Email m)\<rparr>"
  "(if Website m = [] \<and> Website n \<noteq> [] then m\<lparr>Website := Website n\<rparr> else m)
     = m\<lparr>Website := (if Website m = [] then Website n else Website m)\<rparr>"
  for m n :: Counterparty
  by simp_all

lemma mergeCounterparties_fields:
  "mergeCounterparties existing newData =
     existing\<lparr>VAT := (if VAT existing = [] then VAT newData else VAT existing),
              SWIFT := (if SWIFT existing = [] then SWIFT newData else SWIFT existing),
              IBAN := (if IBAN existing = [] then IBAN newData else IBAN existing),
              Phone := (if Phone existing = [] then Phone newData else Phone existing),
              Fax := (if Fax existing = [] then Fax newData else Fax existing),
              Email := (if Email existing = [] then Email newData else Email existing),
              Website := (if Website existing = [] then Website newData else Website existing)\<rparr>"
  unfolding mergeCounterparties_def fill_if_empty Let_def by simp

text \<open>
  C4. \<^verbatim>\<open>mergeCounterparties\<close> leaves the id, name, country and address of the existing
  entry unchanged, and for each of vat, swift, iban, phone, fax, email and website: when
  the field of the existing entry is empty the merged field is the field of the new
  data, and when it is not empty the merged field is the field of the existing entry.
\<close>

theorem merge_rule:
  "ID (mergeCounterparties existing newData) = ID existing
   \<and> Name (mergeCounterparties existing newData) = Name existing
   \<and> Country (mergeCounterparties existing newData) = Country existing
   \<and> Address (mergeCounterparties existing newData) = Address existing
   \<and> (VAT existing = [] \<longrightarrow> VAT (mergeCounterparties existing newData) = VAT newData)
   \<and> (VAT existing \<noteq> [] \<longrightarrow> VAT (mergeCounterparties existing newData) = VAT existing)
   \<and> (SWIFT existing = [] \<longrightarrow> SWIFT (mergeCounterparties existing newData) = SWIFT newData)
   \<and> (SWIFT existing \<noteq> [] \<longrightarrow> SWIFT (mergeCounterparties existing newData) = SWIFT existing)
   \<and> (IBAN existing = [] \<longrightarrow> IBAN (mergeCounterparties existing newData) = IBAN newData)
   \<and> (IBAN existing \<noteq> [] \<longrightarrow> IBAN (mergeCounterparties existing newData) = IBAN existing)
   \<and> (Phone existing = [] \<longrightarrow> Phone (mergeCounterparties existing newData) = Phone newData)
   \<and> (Phone existing \<noteq> [] \<longrightarrow> Phone (mergeCounterparties existing newData) = Phone existing)
   \<and> (Fax existing = [] \<longrightarrow> Fax (mergeCounterparties existing newData) = Fax newData)
   \<and> (Fax existing \<noteq> [] \<longrightarrow> Fax (mergeCounterparties existing newData) = Fax existing)
   \<and> (Email existing = [] \<longrightarrow> Email (mergeCounterparties existing newData) = Email newData)
   \<and> (Email existing \<noteq> [] \<longrightarrow> Email (mergeCounterparties existing newData) = Email existing)
   \<and> (Website existing = [] \<longrightarrow> Website (mergeCounterparties existing newData) = Website newData)
   \<and> (Website existing \<noteq> [] \<longrightarrow> Website (mergeCounterparties existing newData) = Website existing)"
proof -
  let ?merged = "mergeCounterparties existing newData"
  have kept: "ID ?merged = ID existing" "Name ?merged = Name existing"
    "Country ?merged = Country existing" "Address ?merged = Address existing"
    by (simp_all add: mergeCounterparties_fields)
  have optional:
    "VAT ?merged = (if VAT existing = [] then VAT newData else VAT existing)"
    "SWIFT ?merged = (if SWIFT existing = [] then SWIFT newData else SWIFT existing)"
    "IBAN ?merged = (if IBAN existing = [] then IBAN newData else IBAN existing)"
    "Phone ?merged = (if Phone existing = [] then Phone newData else Phone existing)"
    "Fax ?merged = (if Fax existing = [] then Fax newData else Fax existing)"
    "Email ?merged = (if Email existing = [] then Email newData else Email existing)"
    "Website ?merged = (if Website existing = [] then Website newData else Website existing)"
    by (simp_all add: mergeCounterparties_fields)
  show ?thesis unfolding kept optional by simp
qed

theorem merge_rule_witness:
  "IBAN (acme\<lparr>ID := ''7'', IBAN := ''DE02''\<rparr>) \<noteq> []
   \<and> Email (acme\<lparr>ID := ''7'', IBAN := ''DE02''\<rparr>) = []
   \<and> mergeCounterparties (acme\<lparr>ID := ''7'', IBAN := ''DE02''\<rparr>)
        (acme\<lparr>Name := ''ACME'', VAT := [], IBAN := ''FR76'', Email := ''office@acme.example''\<rparr>)
      = acme\<lparr>ID := ''7'', IBAN := ''DE02'', Email := ''office@acme.example''\<rparr>"
  using merge_rule [of "acme\<lparr>ID := ''7'', IBAN := ''DE02''\<rparr>"
      "acme\<lparr>Name := ''ACME'', VAT := [], IBAN := ''FR76'', Email := ''office@acme.example''\<rparr>"]
  by (simp add: mergeCounterparties_fields acme_def)

lemma mergeMatched_unknown:
  "matchedID \<notin> ID ` set existing \<Longrightarrow>
   mergeMatched existing matchedID newCounterparty = Inl (MatchedIDNotInList matchedID)"
  by (induction existing) auto

text \<open>
  C6. When the matching request is answered (it is issued only for a registry that is
  not empty) with \<^verbatim>\<open>match_found = true\<close> and a \<^verbatim>\<open>matched_id\<close> that is the id of no
  registry entry, \<^verbatim>\<open>FindCounterparty\<close> returns the error "AI found a match with ID
  ... but this ID does not exist in the provided list": neither \<^verbatim>\<open>(nil, nil)\<close> nor a
  counterparty.
\<close>

theorem match_with_unknown_id:
  assumes "existingCounterparties \<noteq> []"
    and "MatchFound match"
    and "MatchedID match \<notin> ID ` set existingCounterparties"
  shows "FindCounterparty (Parsed match) existingCounterparties newCounterparty
           = Inl (MatchedIDNotInList (MatchedID match))"
  using assms by (simp add: FindCounterparty_def mergeMatched_unknown)

theorem match_with_unknown_id_witness:
  "[acme\<lparr>ID := ''1''\<rparr>] \<noteq> []
   \<and> MatchFound \<lparr>MatchFound = True, MatchedID = ''2''\<rparr>
   \<and> MatchedID \<lparr>MatchFound = True, MatchedID = ''2''\<rparr> \<notin> ID ` set [acme\<lparr>ID := ''1''\<rparr>]
   \<and> FindCounterparty (Parsed \<lparr>MatchFound = True, MatchedID = ''2''\<rparr>)
        [acme\<lparr>ID := ''1''\<rparr>] acme = Inl (MatchedIDNotInList ''2'')"
  using match_with_unknown_id [of "[acme\<lparr>ID := ''1''\<rparr>]"
      "\<lparr>MatchFound = True, MatchedID = ''2''\<rparr>" acme]
  by simp

section \<open>Properties of the orchestrators\<close>

lemma collect_on_matching_error:
  assumes "ErrorMessage res = []"
    and "Invoice res = Some invoice"
    and "FindCounterparty reply (existingForSearch st) (Counterparty invoice) = Inl err"
  shows "reporterCollect reply res st =
           Returned (st\<lparr>allResults := allResults st @ [res],
                       uniqueCounterparties := uniqueCounterparties st @
                         [\<lparr>FirstSeenIn = SourceFile res, Entry = Counterparty invoice\<rparr>],
                       existingForSearch := existingForSearch st @ [Counterparty invoice],
                       successfulCount := successfulCount st + 1,
                       logged := logged st @
                         [''WARN: Could not match counterparty for '' @ SourceFile res
                            @ '': '' @ Error err]\<rparr>)"
    and "webCollect reply newID res st =
           Returned (st\<lparr>allResults := allResults st @
                         [res\<lparr>Invoice := Some (invoice\<lparr>Counterparty :=
                                 (Counterparty invoice)\<lparr>ID := newID\<rparr>\<rparr>)\<rparr>],
                       uniqueCounterparties := uniqueCounterparties st @
                         [\<lparr>FirstSeenIn = SourceFile res,
                           Entry = (Counterparty invoice)\<lparr>ID := newID\<rparr>\<rparr>],
                       existingForSearch := existingForSearch st @
                         [(Counterparty invoice)\<lparr>ID := newID\<rparr>],
                       successfulCount := successfulCount st + 1,
                       logged := logged st @
                         [''WARN: Could not match counterparty for '' @ SourceFile res
                            @ '': '' @ Error err]\<rparr>)"
  using assms
  by (simp_all add: reporterCollect_def webCollect_def registerNew_def Let_def)

lemma FindCounterparty_failed_reply:
  assumes "existingCounterparties \<noteq> []"
    and "(reply, err) \<in> {(RequestFailed d, MatchingRequestFailed d),
                          (NoChoices, MatchingNoChoices),
                          (BadJSON d c, MatchingUnmarshalFailed d c)}"
  shows "FindCounterparty reply existingCounterparties newCounterparty = Inl err"
  using assms by (auto simp: FindCounterparty_def)

text \<open>
  C5 (as amended). When the matching request is issued for a successful result (the
  registry is not empty) and fails, because the request fails, the response has no
  choice, or its content does not parse, \<^verbatim>\<open>FindCounterparty\<close> returns the
  corresponding error and both orchestrators treat the counterparty as new and go on:
  the result is kept, the counterparty is appended to \<^verbatim>\<open>uniqueCounterparties\<close> and to
  the registry \<^verbatim>\<open>existingForSearch\<close>, one \<^verbatim>\<open>WARN\<close> line with the error is logged
  and the loop continues with the next result. The reporter registers the counterparty
  with the id it was extracted with; the web server first stores the newly generated
  uuid in it.
\<close>

theorem matching_failure_registers_new:
  assumes "ErrorMessage res = []"
    and "Invoice res = Some invoice"
    and "existingForSearch st \<noteq> []"
    and "(reply, err) \<in> {(RequestFailed d, MatchingRequestFailed d),
                          (NoChoices, MatchingNoChoices),
                          (BadJSON d c, MatchingUnmarshalFailed d c)}"
  shows "FindCounterparty reply (existingForSearch st) (Counterparty invoice) = Inl err
    \<and> reporterCollect reply res st =
           Returned (st\<lparr>allResults := allResults st @ [res],
                       uniqueCounterparties := uniqueCounterparties st @
                         [\<lparr>FirstSeenIn = SourceFile res, Entry = Counterparty invoice\<rparr>],
                       existingForSearch := existingForSearch st @ [Counterparty invoice],
                       successfulCount := successfulCount st + 1,
                       logged := logged st @
                         [''WARN: Could not match counterparty for '' @ SourceFile res
                            @ '': '' @ Error err]\<rparr>)
    \<and> webCollect reply newID res st =
           Returned (st\<lparr>allResults := allResults st @
                         [res\<lparr>Invoice := Some (invoice\<lparr>Counterparty :=
                                 (Counterparty invoice)\<lparr>ID := newID\<rparr>\<rparr>)\<rparr>],
                       uniqueCounterparties := uniqueCounterparties st @
                         [\<lparr>FirstSeenIn = SourceFile res,
                           Entry = (Counterparty invoice)\<lparr>ID := newID\<rparr>\<rparr>],
                       existingForSearch := existingForSearch st @
                         [(Counterparty invoice)\<lparr>ID := newID\<rparr>],
                       successfulCount := successfulCount st + 1,
                       logged := logged st @
                         [''WARN: Could not match counterparty for '' @ SourceFile res
                            @ '': '' @ Error err]\<rparr>)
    \<and> reporterCollectAll (\<lambda>n. reply) k (res # rest) st =
           reporterCollectAll (\<lambda>n. reply) (k + 1) rest
             (st\<lparr>allResults := allResults st @ [res],
                       uniqueCounterparties := uniqueCounterparties st @
                         [\<lparr>FirstSeenIn = SourceFile res, Entry = Counterparty invoice\<rparr>],
                       existingForSearch := existingForSearch st @ [Counterparty invoice],
                       successfulCount := successfulCount st + 1,
                       logged := logged st @
                         [''WARN: Could not match counterparty for '' @ SourceFile res
                            @ '': '' @ Error err]\<rparr>)"
proof -
  have failed: "FindCounterparty reply (existingForSearch st) (Counterparty invoice) = Inl err"
    by (rule FindCounterparty_failed_reply [OF assms(3,4)])
  note r = collect_on_matching_error(1) [OF assms(1,2) failed]
  note w = collect_on_matching_error(2) [OF assms(1,2) failed, of newID]
  show ?thesis using failed w by (simp add: r)
qed

theorem matching_failure_registers_new_witness:
  "FindCounterparty (RequestFailed ''timeout'') [acme] bolt
      = Inl (MatchingRequestFailed ''timeout'')
   \<and> reporterCollect (RequestFailed ''timeout'') boltResult (initial\<lparr>existingForSearch := [acme]\<rparr>)
      = Returned (initial\<lparr>
          allResults := [boltResult],
          uniqueCounterparties := [\<lparr>FirstSeenIn = ''b.pdf'', Entry = bolt\<rparr>],
          existingForSearch := [acme, bolt],
          successfulCount := 1,
          logged := [''WARN: Could not match counterparty for b.pdf: matching request to OpenAI failed: timeout'']\<rparr>)
   \<and> webCollect (RequestFailed ''timeout'') ''u-2'' boltResult
        (initial\<lparr>existingForSearch := [acme]\<rparr>)
      = Returned (initial\<lparr>
          allResults := [boltResult\<lparr>Invoice :=
                           Some (acmeInvoice\<lparr>Counterparty := bolt\<lparr>ID := ''u-2''\<rparr>\<rparr>)\<rparr>],
          uniqueCounterparties := [\<lparr>FirstSeenIn = ''b.pdf'', Entry = bolt\<lparr>ID := ''u-2''\<rparr>\<rparr>],
          existingForSearch := [acme, bolt\<lparr>ID := ''u-2''\<rparr>],
          successfulCount := 1,
          logged := [''WARN: Could not match counterparty for b.pdf: matching request to OpenAI failed: timeout'']\<rparr>)
   \<and> FindCounterparty NoChoices [acme] bolt = Inl MatchingNoChoices
   \<and> reporterCollect NoChoices boltResult (initial\<lparr>existingForSearch := [acme]\<rparr>)
      = Returned (initial\<lparr>
          allResults := [boltResult],
          uniqueCounterparties := [\<lparr>FirstSeenIn = ''b.pdf'', Entry = bolt\<rparr>],
          existingForSearch := [acme, bolt],
          successfulCount := 1,
          logged := [''WARN: Could not match counterparty for b.pdf: OpenAI returned no choices for matching'']\<rparr>)
   \<and> FindCounterparty (BadJSON ''unexpected end of JSON input'' ''{'') [acme] bolt
      = Inl (MatchingUnmarshalFailed ''unexpected end of JSON input'' ''{'')
   \<and> reporterCollect (BadJSON ''unexpected end of JSON input'' ''{'') boltResult
        (initial\<lparr>existingForSearch := [acme]\<rparr>)
      = Returned (initial\<lparr>
          allResults := [boltResult],
          uniqueCounterparties := [\<lparr>FirstSeenIn = ''b.pdf'', Entry = bolt\<rparr>],
          existingForSearch := [acme, bolt],
          successfulCount := 1,
          logged := [''WARN: Could not match counterparty for b.pdf: failed to unmarshal matching response: unexpected end of JSON input. Response: {'']\<rparr>)"
  using
    matching_failure_registers_new [where res = boltResult
      and invoice = "acmeInvoice\<lparr>Counterparty := bolt\<rparr>"
      and st = "initial\<lparr>existingForSearch := [acme]\<rparr>"
      and reply = "RequestFailed ''timeout''"
      and err = "MatchingRequestFailed ''timeout''"
      and d = "''timeout''" and c = "[]" and newID = "''u-2''"]
    matching_failure_registers_new [where res = boltResult
      and invoice = "acmeInvoice\<lparr>Counterparty := bolt\<rparr>"
      and st = "initial\<lparr>existingForSearch := [acme]\<rparr>"
      and reply = NoChoices
      and err = MatchingNoChoices
      and d = "[]" and c = "[]" and newID = "''u-2''"]
    matching_failure_registers_new [where res = boltResult
      and invoice = "acmeInvoice\<lparr>Counterparty := bolt\<rparr>"
      and st = "initial\<lparr>existingForSearch := [acme]\<rparr>"
      and reply = "BadJSON ''unexpected end of JSON input'' ''{''"
      and err = "MatchingUnmarshalFailed ''unexpected end of JSON input'' ''{''"
      and d = "''unexpected end of JSON input''" and c = "''{''" and newID = "''u-2''"]
  by (simp add: boltResult_def initial_def)

text \<open>
  C5 as stated fails for the reporter: no identifier is assigned. After two files whose
  counterparties were extracted without an id, the second one with a failing matching
  request, the registry holds two entries with the same, empty id.
\<close>

theorem reporter_keeps_extracted_id:
  "reporterCollectAll (\<lambda>n. RequestFailed ''timeout'') 0
     [\<lparr>SourceFile = ''a.pdf'', Invoice = Some acmeInvoice, ErrorMessage = []\<rparr>,
      \<lparr>SourceFile = ''b.pdf'', Invoice = Some (acmeInvoice\<lparr>Counterparty := bolt\<rparr>),
        ErrorMessage = []\<rparr>] initial
   = Returned (initial\<lparr>
       allResults := [\<lparr>SourceFile = ''a.pdf'', Invoice = Some acmeInvoice, ErrorMessage = []\<rparr>,
                      \<lparr>SourceFile = ''b.pdf'',
                        Invoice = Some (acmeInvoice\<lparr>Counterparty := bolt\<rparr>),
                        ErrorMessage = []\<rparr>],
       uniqueCounterparties := [\<lparr>FirstSeenIn = ''a.pdf'', Entry = acme\<rparr>,
                                \<lparr>FirstSeenIn = ''b.pdf'', Entry = bolt\<rparr>],
       existingForSearch := [acme, bolt],
       successfulCount := 2,
       logged := [''WARN: Could not match counterparty for b.pdf: matching request to OpenAI failed: timeout'']\<rparr>)
   \<and> ID bolt = ID acme \<and> ID bolt = []"
  by (simp add: reporterCollect_def registerNew_def FindCounterparty_def initial_def
      acmeInvoice_def acme_def bolt_def)

section \<open>Properties of the page selection on the store\<close>

lemma length_elems: "valid h s \<Longrightarrow> length (elems h s) = len s"
  by (auto simp: valid_def elems_def)

lemma sortInts_window:
  assumes "valid h s"
  shows "sortInts h s ! arr s
           = take (off s) (h ! arr s) @ sort (elems h s) @ drop (off s + len s) (h ! arr s)"
  using assms by (simp add: sortInts_def valid_def)

lemma elems_sortInts_part:
  assumes v: "valid h s" and k: "k + n \<le> len s"
  shows "elems (sortInts h s) (s\<lparr>off := off s + k, len := n\<rparr>)
           = take n (drop k (sort (elems h s)))"
proof -
  have lp: "length (take (off s) (h ! arr s)) = off s"
    using v by (simp add: valid_def)
  have ls: "length (sort (elems h s)) = len s"
    using v by (simp add: length_elems)
  have "elems (sortInts h s) (s\<lparr>off := off s + k, len := n\<rparr>)
          = take n (drop (off s + k) (take (off s) (h ! arr s) @ sort (elems h s)
                       @ drop (off s + len s) (h ! arr s)))"
    by (simp add: elems_def sortInts_window [OF v])
  also have "\<dots> = take n (drop k (sort (elems h s) @ drop (off s + len s) (h ! arr s)))"
    using lp by (simp add: drop_append)
  also have "\<dots> = take n (drop k (sort (elems h s)))"
    using ls k by (simp add: drop_append take_append)
  finally show ?thesis .
qed

lemma elems_sortInts:
  assumes "valid h s"
  shows "elems (sortInts h s) s = sort (elems h s)"
proof -
  have "elems (sortInts h s) (s\<lparr>off := off s + 0, len := len s\<rparr>)
          = take (len s) (drop 0 (sort (elems h s)))"
    by (rule elems_sortInts_part [OF assms]) simp
  then show ?thesis using assms by (simp add: length_elems)
qed

lemma sortInts_frame:
  "length (sortInts h s) = length h"
  "a \<noteq> arr s \<Longrightarrow> sortInts h s ! a = h ! a"
  by (simp_all add: sortInts_def)

lemma sortInts_newSlice:
  "sortInts (h @ [xs]) \<lparr>arr = length h, off = 0, len = length xs\<rparr> = h @ [sort xs]"
  by (simp add: sortInts_def elems_def)

lemma select_store_long:
  assumes v: "valid h s" and long: "4 < len s"
  shows "selectPagesForAnalysis_store h s
           = (sortInts h s @ [selectPagesForAnalysis (elems h s)],
              \<lparr>arr = length h, off = 0, len = length (selectPagesForAnalysis (elems h s))\<rparr>)"
proof -
  define sorted where "sorted = sort (elems h s)"
  define xs where "xs = snd (addUnselected (drop (length sorted - 2) sorted)
                               (addUnselected (take 2 sorted) (\<lambda>_. False, [])))"
  have first: "elems (sortInts h s) (s\<lparr>len := 2\<rparr>) = take 2 sorted"
    using elems_sortInts_part [OF v, of 0 2] long by (simp add: sorted_def)
  have last: "elems (sortInts h s) (s\<lparr>off := off s + (len s - 2), len := 2\<rparr>)
                = drop (length sorted - 2) sorted"
    using elems_sortInts_part [OF v, of "len s - 2" 2] long v
    by (simp add: length_elems sorted_def)
  have ns: "\<not> len s \<le> 4" "\<not> length (elems h s) \<le> 4"
    using long v by (simp_all add: length_elems)
  have sel: "selectPagesForAnalysis (elems h s) = sort xs"
    by (simp only: selectPagesForAnalysis_def Let_def ns if_False xs_def sorted_def)
  have "selectPagesForAnalysis_store h s
          = (case newSlice (sortInts h s) xs of (h2, result) \<Rightarrow> (sortInts h2 result, result))"
    by (simp only: selectPagesForAnalysis_store_def Let_def ns if_False first last xs_def)
  also have "\<dots> = (sortInts h s @ [sort xs], \<lparr>arr = length h, off = 0, len = length xs\<rparr>)"
    by (simp add: newSlice_def sortInts_frame(1) sortInts_newSlice [of "sortInts h s" xs, simplified sortInts_frame(1)])
  finally show ?thesis by (simp add: sel)
qed

text \<open>
  C9. On a valid slice, \<^verbatim>\<open>selectPagesForAnalysis\<close> with 4 or fewer elements returns
  the argument slice itself (same array, offset and length) and leaves the store as it
  was. With more than 4 elements the argument slice reads sorted after the call (the rest
  of its backing array and every other array are unchanged) and the slice returned lies
  in a new array. In both cases the elements of the slice returned are what the
  function on contents computes.
\<close>

theorem select_aliases_argument:
  assumes "valid h s"
  shows "(len s \<le> 4 \<longrightarrow> selectPagesForAnalysis_store h s = (h, s))
    \<and> (4 < len s \<longrightarrow>
         elems (fst (selectPagesForAnalysis_store h s)) s = sort (elems h s)
         \<and> take (off s) (fst (selectPagesForAnalysis_store h s) ! arr s)
             = take (off s) (h ! arr s)
         \<and> drop (off s + len s) (fst (selectPagesForAnalysis_store h s) ! arr s)
             = drop (off s + len s) (h ! arr s)
         \<and> (\<forall>a < length h. a \<noteq> arr s \<longrightarrow>
               fst (selectPagesForAnalysis_store h s) ! a = h ! a)
         \<and> arr (snd (selectPagesForAnalysis_store h s)) = length h
         \<and> arr (snd (selectPagesForAnalysis_store h s)) \<noteq> arr s)
    \<and> elems (fst (selectPagesForAnalysis_store h s)) (snd (selectPagesForAnalysis_store h s))
         = selectPagesForAnalysis (elems h s)"
proof (cases "len s \<le> 4")
  case True
  then have "selectPagesForAnalysis_store h s = (h, s)"
    by (simp add: selectPagesForAnalysis_store_def)
  moreover have "selectPagesForAnalysis (elems h s) = elems h s"
    using True assms by (simp add: selectPagesForAnalysis_def length_elems)
  ultimately show ?thesis using True by simp
next
  case False
  then have long: "4 < len s" by simp
  note st = select_store_long [OF assms long]
  have a: "arr s < length h" using assms by (simp add: valid_def)
  have a': "arr s < length (sortInts h s)" using a by (simp add: sortInts_frame(1))
  have lo: "off s \<le> length (h ! arr s)" using assms by (simp add: valid_def)
  have 1: "elems (sortInts h s @ [selectPagesForAnalysis (elems h s)]) s = sort (elems h s)"
    using elems_sortInts [OF assms] a' by (simp add: elems_def nth_append)
  have w: "(sortInts h s @ [selectPagesForAnalysis (elems h s)]) ! arr s
             = take (off s) (h ! arr s) @ sort (elems h s) @ drop (off s + len s) (h ! arr s)"
    using a' sortInts_window [OF assms] by (simp add: nth_append)
  have ls: "length (sort (elems h s)) = len s" using assms by (simp add: length_elems)
  have 2: "take (off s) ((sortInts h s @ [selectPagesForAnalysis (elems h s)]) ! arr s)
             = take (off s) (h ! arr s)"
    unfolding w using lo by simp
  have 3: "drop (off s + len s) ((sortInts h s @ [selectPagesForAnalysis (elems h s)]) ! arr s)
             = drop (off s + len s) (h ! arr s)"
    unfolding w using lo ls by (simp add: drop_append)
  have 4: "\<forall>a < length h. a \<noteq> arr s \<longrightarrow>
             (sortInts h s @ [selectPagesForAnalysis (elems h s)]) ! a = h ! a"
    by (simp add: nth_append sortInts_frame)
  have 5: "elems (sortInts h s @ [selectPagesForAnalysis (elems h s)])
             \<lparr>arr = length h, off = 0, len = length (selectPagesForAnalysis (elems h s))\<rparr>
           = selectPagesForAnalysis (elems h s)"
    by (simp add: elems_def nth_append sortInts_frame(1))
  show ?thesis using long a 1 2 3 4 5 by (simp add: st)
qed

theorem select_aliases_argument_witness:
  "valid [[9, 9, 5, 4, 3, 2, 1, 0, 7, 9], [2, 1]] \<lparr>arr = 0, off = 2, len = 7\<rparr>
   \<and> selectPagesForAnalysis_store [[9, 9, 5, 4, 3, 2, 1, 0, 7, 9], [2, 1]]
        \<lparr>arr = 0, off = 2, len = 7\<rparr>
      = ([[9, 9, 0, 1, 2, 3, 4, 5, 7, 9], [2, 1], [0, 1, 5, 7]], \<lparr>arr = 2, off = 0, len = 4\<rparr>)
   \<and> valid [[9, 9, 5, 4, 3, 2, 1, 0, 7, 9], [2, 1]] \<lparr>arr = 1, off = 0, len = 2\<rparr>
   \<and> selectPagesForAnalysis_store [[9, 9, 5, 4, 3, 2, 1, 0, 7, 9], [2, 1]]
        \<lparr>arr = 1, off = 0, len = 2\<rparr>
      = ([[9, 9, 5, 4, 3, 2, 1, 0, 7, 9], [2, 1]], \<lparr>arr = 1, off = 0, len = 2\<rparr>)"
  using select_aliases_argument [of "[[9, 9, 5, 4, 3, 2, 1, 0, 7, 9], [2, 1]]"
      "\<lparr>arr = 0, off = 2, len = 7\<rparr>"]
    select_aliases_argument [of "[[9, 9, 5, 4, 3, 2, 1, 0, 7, 9], [2, 1]]"
      "\<lparr>arr = 1, off = 0, len = 2\<rparr>"]
  by (simp add: valid_def selectPagesForAnalysis_store_def selectPagesForAnalysis_def
      Let_def elems_def sortInts_def newSlice_def)

end
